theory Spec2Isabelle
  imports Main "HOL-Library.Word"
begin

unbundle bit_operations_syntax

section \<open>Bytes, strings and the library primitives\<close>

text \<open>
  A Node \<open>Buffer\<close> is a list of bytes. A JavaScript string is modelled as a \<open>string\<close>
  whose characters are the code points 0..255; \<open>utf8\<close> is the encoding that
  \<open>Buffer.from(str)\<close> and a string key handed to \<open>crypto.createCipheriv\<close> apply
  (one byte below 128, two bytes from 128 on).
\<close>

type_synonym byte = "8 word"
type_synonym bytes = "byte list"

datatype error =
    InvalidKeyType
  | InvalidKeyLength
  | InvalidIV
  | InvalidAuthTagLength
  | InvalidHexLength
  | AuthenticationFailed
  | JsonSyntaxError
  | MagicByteMismatch
  | TooSmall
  | ENOENT

definition utf8_char :: "char \<Rightarrow> bytes" where
  "utf8_char c =
     (let n = (of_char c :: nat)
      in if n < 128 then [of_nat n]
         else [of_nat (192 + n div 64), of_nat (128 + n mod 64)])"

definition utf8 :: "string \<Rightarrow> bytes" where
  "utf8 s = concat (map utf8_char s)"

definition isAscii :: "string \<Rightarrow> bool" where
  "isAscii s = list_all (\<lambda>c. (of_char c :: nat) < 128) s"

text \<open>\<open>buf.toString('hex')\<close>: two lowercase digits for each byte.\<close>

definition hexChars :: string where
  "hexChars = ''0123456789abcdef''"

definition hexByte :: "byte \<Rightarrow> string" where
  "hexByte b = [hexChars ! (unat b div 16), hexChars ! (unat b mod 16)]"

definition toHex :: "bytes \<Rightarrow> string" where
  "toHex bs = concat (map hexByte bs)"

definition hexVal :: "char \<Rightarrow> nat option" where
  "hexVal c =
     (let n = (of_char c :: nat)
      in if 48 \<le> n \<and> n \<le> 57 then Some (n - 48)
         else if 97 \<le> n \<and> n \<le> 102 then Some (n - 87)
         else if 65 \<le> n \<and> n \<le> 70 then Some (n - 55)
         else None)"

text \<open>
  \<open>Buffer.from(str, 'hex')\<close>: decodes pairs of digits and stops, without raising, at
  the first pair that is not two hex digits; a trailing single character is dropped.
\<close>

fun fromHex :: "string \<Rightarrow> bytes" where
  "fromHex (a # b # rest) =
     (case hexVal a of
        None \<Rightarrow> []
      | Some h \<Rightarrow> (case hexVal b of
                     None \<Rightarrow> []
                   | Some l \<Rightarrow> of_nat (16 * h + l) # fromHex rest))"
| "fromHex _ = []"

text \<open>The regular expression \<open>/^[0-9a-fA-F]+$/\<close>.\<close>

definition isHexString :: "string \<Rightarrow> bool" where
  "isHexString s = (s \<noteq> [] \<and> list_all (\<lambda>c. hexVal c \<noteq> None) s)"

text \<open>\<open>str.split(':')\<close>: the fields between the separators, at least one field.\<close>

fun split_on :: "char \<Rightarrow> string \<Rightarrow> string list" where
  "split_on d [] = [[]]"
| "split_on d (c # cs) =
     (if c = d then [] # split_on d cs
      else (case split_on d cs of
              [] \<Rightarrow> [[c]]
            | p # ps \<Rightarrow> (c # p) # ps))"

text \<open>\<open>str.padEnd(n)\<close> pads with spaces; \<open>str.slice(0, n)\<close> is \<open>take n\<close>.\<close>

definition padEnd :: "nat \<Rightarrow> string \<Rightarrow> string" where
  "padEnd n s = s @ replicate (n - length s) (CHR '' '')"

text \<open>
  The primitives that come from Node's \<open>crypto\<close> module and are not code of the
  repository are parameters of the model. AES-256-GCM is a counter-mode stream cipher
  with a tag computed over the ciphertext: \<open>keystream P key iv i\<close> is the byte of the
  key stream at offset \<open>i\<close>, \<open>gcmTag P key iv ct\<close> the authentication tag of the
  ciphertext \<open>ct\<close>, and \<open>sha256 P\<close> the hash function. A streaming hash is the hash of
  the concatenation of the chunks fed to it, so a hash object is modelled by the bytes fed
  so far.
\<close>

record prims =
  keystream :: "bytes \<Rightarrow> bytes \<Rightarrow> nat \<Rightarrow> byte"
  gcmTag :: "bytes \<Rightarrow> bytes \<Rightarrow> bytes \<Rightarrow> bytes"
  sha256 :: "bytes \<Rightarrow> bytes"

text \<open>\<open>cipher.update\<close> on a chunk that starts at offset \<open>off\<close> of the stream.\<close>

fun xorStream :: "prims \<Rightarrow> bytes \<Rightarrow> bytes \<Rightarrow> nat \<Rightarrow> bytes \<Rightarrow> bytes" where
  "xorStream P key iv off [] = []"
| "xorStream P key iv off (b # bs) =
     (b XOR keystream P key iv off) # xorStream P key iv (Suc off) bs"

text \<open>
  \<open>crypto.createCipheriv('aes-256-gcm', key, iv)\<close> and \<open>createDecipheriv\<close> raise
  unless the key has 32 bytes and the nonce is not empty.
\<close>

definition createCipheriv :: "bytes \<Rightarrow> bytes \<Rightarrow> error option" where
  "createCipheriv key iv =
     (if length key \<noteq> 32 then Some InvalidKeyLength
      else if iv = [] then Some InvalidIV
      else None)"

text \<open>
  \<open>decipher.setAuthTag(tag)\<close> raises unless the tag has one of the lengths that GCM
  allows; \<open>decipher.final()\<close> compares the tag with the computed one, cut to the length
  of the tag given.
\<close>

definition validTagLength :: "nat \<Rightarrow> bool" where
  "validTagLength n = (n \<in> {4, 8, 12, 13, 14, 15, 16})"

definition tagVerifies :: "prims \<Rightarrow> bytes \<Rightarrow> bytes \<Rightarrow> bytes \<Rightarrow> bytes \<Rightarrow> bool" where
  "tagVerifies P key iv tag ct = (take (length tag) (gcmTag P key iv ct) = tag)"

section \<open>Token codec (utils/encryption)\<close>

text \<open>
  \<open>JSON.stringify\<close> followed by the UTF-8 encoding that \<open>cipher.update(text, 'utf8')\<close>
  applies, and UTF-8 decoding followed by \<open>JSON.parse\<close> (\<open>None\<close> when it raises), are
  parameters as well.
\<close>

record 'p json =
  stringify :: "'p \<Rightarrow> bytes"
  parse :: "bytes \<Rightarrow> 'p option"

record security =
  encryptionKeys :: "string list"
  encryptionIv :: string

text \<open>
  An element of \<open>PARSED_KEYS\<close> is a Buffer (a 64-digit hex key, decoded) or the
  configured string itself, which \<open>createCipheriv\<close> encodes as UTF-8.
\<close>

datatype keymat = KBuffer bytes | KString string

fun keyBytes :: "keymat \<Rightarrow> bytes" where
  "keyBytes (KBuffer b) = b"
| "keyBytes (KString s) = utf8 s"

definition parseTokenKey :: "string \<Rightarrow> keymat" where
  "parseTokenKey key =
     (if isHexString key \<and> length key = 64 then KBuffer (fromHex key) else KString key)"

definition PARSED_KEYS :: "security \<Rightarrow> keymat list" where
  "PARSED_KEYS cfg = map parseTokenKey (encryptionKeys cfg)"

definition PARSED_IV :: "security \<Rightarrow> string" where
  "PARSED_IV cfg = encryptionIv cfg"

definition encrypt :: "prims \<Rightarrow> 'p json \<Rightarrow> security \<Rightarrow> 'p \<Rightarrow> error + string" where
  "encrypt P J cfg payload =
     (let text = stringify J payload;
          iv = utf8 (PARSED_IV cfg)
      in case PARSED_KEYS cfg of
           [] \<Rightarrow> Inl InvalidKeyType
         | key # _ \<Rightarrow>
             (case createCipheriv (keyBytes key) iv of
                Some e \<Rightarrow> Inl e
              | None \<Rightarrow>
                  (let ct = xorStream P (keyBytes key) iv 0 text;
                       encrypted = toHex ct;
                       authTag = toHex (gcmTag P (keyBytes key) iv ct)
                   in Inr (toHex iv @ '':'' @ authTag @ '':'' @ encrypted))))"

text \<open>
  The body of the loop of \<open>decrypt\<close> for one key: every exception raised inside it
  (by \<open>createDecipheriv\<close>, \<open>setAuthTag\<close>, \<open>update\<close>, which refuses a hex string of odd
  length, \<open>final\<close> or \<open>JSON.parse\<close>) is caught and the loop continues, which is the
  result \<open>Inl\<close> here.
\<close>

definition tryKey ::
  "prims \<Rightarrow> 'p json \<Rightarrow> bytes \<Rightarrow> bytes \<Rightarrow> string \<Rightarrow> keymat \<Rightarrow> error + 'p" where
  "tryKey P J iv authTag encryptedHex key =
     (case createCipheriv (keyBytes key) iv of
        Some e \<Rightarrow> Inl e
      | None \<Rightarrow>
          if \<not> validTagLength (length authTag) then Inl InvalidAuthTagLength
          else if odd (length encryptedHex) then Inl InvalidHexLength
          else (let ct = fromHex encryptedHex;
                    decrypted = xorStream P (keyBytes key) iv 0 ct
                in if \<not> tagVerifies P (keyBytes key) iv authTag ct
                   then Inl AuthenticationFailed
                   else (case parse J decrypted of
                           None \<Rightarrow> Inl JsonSyntaxError
                         | Some v \<Rightarrow> Inr v)))"

fun tryKeys ::
  "prims \<Rightarrow> 'p json \<Rightarrow> bytes \<Rightarrow> bytes \<Rightarrow> string \<Rightarrow> keymat list \<Rightarrow> 'p option" where
  "tryKeys P J iv authTag encryptedHex [] = None"
| "tryKeys P J iv authTag encryptedHex (key # keys) =
     (case tryKey P J iv authTag encryptedHex key of
        Inr v \<Rightarrow> Some v
      | Inl _ \<Rightarrow> tryKeys P J iv authTag encryptedHex keys)"

text \<open>\<open>decrypt\<close> returns a payload or \<open>null\<close>, which is \<open>None\<close>; it never raises.\<close>

definition decrypt :: "prims \<Rightarrow> 'p json \<Rightarrow> security \<Rightarrow> string \<Rightarrow> 'p option" where
  "decrypt P J cfg token =
     (let parts = split_on (CHR '':'') token
      in if length parts \<noteq> 3 then None
         else (let ivHex = parts ! 0;
                   authTagHex = parts ! 1;
                   encryptedHex = parts ! 2;
                   iv = fromHex ivHex;
                   authTag = fromHex authTagHex
               in tryKeys P J iv authTag encryptedHex (PARSED_KEYS cfg)))"

section \<open>Magic numbers (utils/fileValidation)\<close>

definition MAGIC_NUMBERS :: "(string \<times> bytes) list" where
  "MAGIC_NUMBERS =
     [(''jpg'', [0xFF, 0xD8, 0xFF]),
      (''png'', [0x89, 0x50, 0x4E, 0x47]),
      (''gif'', [0x47, 0x49, 0x46, 0x38]),
      (''pdf'', [0x25, 0x50, 0x44, 0x46]),
      (''zip'', [0x50, 0x4B, 0x03, 0x04]),
      (''7z'', [0x37, 0x7A, 0xBC, 0xAF])]"

text \<open>
  The inner loop of \<open>validateBuffer\<close>: every index of \<open>numbers\<close> is compared; an
  index beyond the buffer reads \<open>undefined\<close>, which differs from every byte.
\<close>

definition matches :: "bytes \<Rightarrow> bytes \<Rightarrow> bool" where
  "matches buffer numbers =
     list_all (\<lambda>i. i < length buffer \<and> buffer ! i = numbers ! i) [0..<length numbers]"

fun findMagic :: "(string \<times> bytes) list \<Rightarrow> bytes \<Rightarrow> string option" where
  "findMagic [] buffer = None"
| "findMagic ((ext, numbers) # rest) buffer =
     (if matches buffer numbers then Some ext else findMagic rest buffer)"

definition validateBuffer :: "bytes \<Rightarrow> string option" where
  "validateBuffer buffer =
     (if length buffer < 4 then None else findMagic MAGIC_NUMBERS buffer)"

section \<open>Local storage strategy\<close>

text \<open>
  The upload directory is a map from file names to contents. The write stream of the
  destination is assumed not to fail: the only errors of the pipeline are those that the
  code itself raises.
\<close>

type_synonym fs = "string \<rightharpoonup> bytes"

record strategy =
  key :: bytes
  ivLength :: nat
  tagLength :: nat

text \<open>\<open>_parseKey\<close>; the configured keys are strings, never Buffers.\<close>

definition parseKey :: "string \<Rightarrow> bytes" where
  "parseKey k = (if length k = 64 then fromHex k else utf8 (take 32 (padEnd 32 k)))"

text \<open>The constructor; \<open>encryptionKeys[0]\<close> of an empty list is \<open>undefined\<close> and raises.\<close>

definition LocalStorageStrategy :: "security \<Rightarrow> error + strategy" where
  "LocalStorageStrategy cfg =
     (case encryptionKeys cfg of
        [] \<Rightarrow> Inl InvalidKeyType
      | k # _ \<Rightarrow> Inr \<lparr>key = parseKey k, ivLength = 16, tagLength = 16\<rparr>)"

text \<open>
  The state of one run of \<open>saveLocalStream\<close>: the variables of the closure
  (\<open>isValidated\<close>, \<open>magicBuffer\<close>, \<open>validationError\<close>, \<open>ivPushed\<close>), the bytes fed to
  \<open>hash\<close>, the ciphertext that \<open>cipher\<close> has produced, and the bytes that have reached
  the write stream of the destination file.
\<close>

record pipe =
  hash :: bytes
  isValidated :: bool
  magicBuffer :: bytes
  validationError :: "error option"
  cipherText :: bytes
  ivPushed :: bool
  written :: bytes

definition initialPipe :: pipe where
  "initialPipe =
     \<lparr>hash = [], isValidated = False, magicBuffer = [], validationError = None,
      cipherText = [], ivPushed = False, written = []\<rparr>"

text \<open>\<open>validator.transform\<close>; the first component is the error given to the callback.\<close>

definition validator_transform :: "pipe \<Rightarrow> bytes \<Rightarrow> error option \<times> pipe" where
  "validator_transform s chunk =
     (let s1 = s\<lparr>hash := hash s @ chunk\<rparr>
      in if \<not> isValidated s1
         then (let s2 = s1\<lparr>magicBuffer := magicBuffer s1 @ chunk\<rparr>
               in if 4 \<le> length (magicBuffer s2)
                  then (case validateBuffer (magicBuffer s2) of
                          None \<Rightarrow>
                            (Some MagicByteMismatch,
                             s2\<lparr>validationError := Some MagicByteMismatch\<rparr>)
                        | Some ext \<Rightarrow> (None, s2\<lparr>isValidated := True\<rparr>))
                  else (None, s2))
         else (None, s1))"

text \<open>The cipher as a transform: the ciphertext of the chunk, at the current offset.\<close>

definition cipher_transform ::
  "prims \<Rightarrow> strategy \<Rightarrow> bytes \<Rightarrow> pipe \<Rightarrow> bytes \<Rightarrow> bytes \<times> pipe" where
  "cipher_transform P this iv s chunk =
     (let c = xorStream P (key this) iv (length (cipherText s)) chunk
      in (c, s\<lparr>cipherText := cipherText s @ c\<rparr>))"

text \<open>\<open>containerizer.transform\<close> and \<open>containerizer.flush\<close>, writing to the file.\<close>

definition containerizer_transform :: "bytes \<Rightarrow> pipe \<Rightarrow> bytes \<Rightarrow> pipe" where
  "containerizer_transform iv s chunk =
     (let s1 = (if \<not> ivPushed s then s\<lparr>written := written s @ iv, ivPushed := True\<rparr> else s)
      in s1\<lparr>written := written s1 @ chunk\<rparr>)"

definition containerizer_flush :: "prims \<Rightarrow> strategy \<Rightarrow> bytes \<Rightarrow> pipe \<Rightarrow> pipe" where
  "containerizer_flush P this iv s =
     (let s1 = (if \<not> ivPushed s then s\<lparr>written := written s @ iv, ivPushed := True\<rparr> else s);
          tag = gcmTag P (key this) iv (cipherText s1)
      in s1\<lparr>written := written s1 @ tag\<rparr>)"

text \<open>
  One chunk of the input through the pipeline. A stream does not pass a chunk of length
  zero on to the next stage; the ciphertext of a chunk has the length of the chunk.
\<close>

definition pipeline_step ::
  "prims \<Rightarrow> strategy \<Rightarrow> bytes \<Rightarrow> pipe \<Rightarrow> bytes \<Rightarrow> error option \<times> pipe" where
  "pipeline_step P this iv s chunk =
     (case validator_transform s chunk of
        (Some e, s1) \<Rightarrow> (Some e, s1)
      | (None, s1) \<Rightarrow>
          if chunk = [] then (None, s1)
          else (case cipher_transform P this iv s1 chunk of
                  (c, s2) \<Rightarrow> (None, containerizer_transform iv s2 c)))"

fun pipeline_run ::
  "prims \<Rightarrow> strategy \<Rightarrow> bytes \<Rightarrow> pipe \<Rightarrow> bytes list \<Rightarrow> error option \<times> pipe" where
  "pipeline_run P this iv s [] = (None, containerizer_flush P this iv s)"
| "pipeline_run P this iv s (chunk # chunks) =
     (case pipeline_step P this iv s chunk of
        (Some e, s1) \<Rightarrow> (Some e, s1)
      | (None, s1) \<Rightarrow> pipeline_run P this iv s1 chunks)"

definition delete :: "fs \<Rightarrow> string \<Rightarrow> fs" where
  "delete files filename = files(filename := None)"

record save_result =
  checksum :: string
  isEncrypted :: bool

text \<open>
  \<open>saveLocalStream\<close>: \<open>randomBytes\<close> stands for \<open>crypto.randomBytes\<close> in this call,
  \<open>inputStream\<close> is the list of the chunks of the input. \<open>createCipheriv\<close> raises
  before the \<open>try\<close>; inside it the file is created by the write stream, and removed
  again when the pipeline fails.
\<close>

definition saveLocalStream ::
  "prims \<Rightarrow> strategy \<Rightarrow> (nat \<Rightarrow> bytes) \<Rightarrow> fs \<Rightarrow> bytes list \<Rightarrow> string \<Rightarrow> string
     \<Rightarrow> (error + save_result) \<times> fs" where
  "saveLocalStream P this randomBytes files inputStream filename mimeType =
     (let iv = randomBytes (ivLength this)
      in case createCipheriv (key this) iv of
           Some e \<Rightarrow> (Inl e, files)
         | None \<Rightarrow>
             (case pipeline_run P this iv initialPipe inputStream of
                (Some err, s) \<Rightarrow>
                  (Inl (case validationError s of Some v \<Rightarrow> v | None \<Rightarrow> err),
                   delete (files(filename \<mapsto> written s)) filename)
              | (None, s) \<Rightarrow>
                  (Inr \<lparr>checksum = toHex (sha256 P (hash s)), isEncrypted = True\<rparr>,
                   files(filename \<mapsto> written s))))"

text \<open>
  \<open>fd.read(buffer, 0, n, pos)\<close> into a zero-filled buffer of \<open>n\<close> bytes, and
  \<open>fs.createReadStream(path, {start, end})\<close>, whose \<open>end\<close> is inclusive.
\<close>

definition pread :: "bytes \<Rightarrow> nat \<Rightarrow> nat \<Rightarrow> bytes" where
  "pread content n pos =
     (let got = take n (drop pos content) in got @ replicate (n - length got) 0)"

definition readRange :: "bytes \<Rightarrow> nat \<Rightarrow> nat \<Rightarrow> bytes" where
  "readRange content start end = take (Suc end - start) (drop start content)"

text \<open>
  What the consumer of the stream returned by \<open>getStream\<close> observes: the bytes that the
  decipher emits, and the error with which the stream ends when the tag does not verify.
\<close>

record stream_out =
  data :: bytes
  streamError :: "error option"

definition decipher_pipe :: "prims \<Rightarrow> strategy \<Rightarrow> bytes \<Rightarrow> bytes \<Rightarrow> bytes \<Rightarrow> stream_out" where
  "decipher_pipe P this iv tag ct =
     \<lparr>data = xorStream P (key this) iv 0 ct,
      streamError =
        (if tagVerifies P (key this) iv tag ct then None else Some AuthenticationFailed)\<rparr>"

definition getStream :: "prims \<Rightarrow> strategy \<Rightarrow> fs \<Rightarrow> string \<Rightarrow> error + stream_out" where
  "getStream P this files filename =
     (case files filename of
        None \<Rightarrow> Inl ENOENT
      | Some content \<Rightarrow>
          (let fileSize = length content
           in if fileSize < ivLength this + tagLength this then Inl TooSmall
              else (let iv = pread content (ivLength this) 0;
                        tagPosition = fileSize - tagLength this;
                        tag = pread content (tagLength this) tagPosition
                    in case createCipheriv (key this) iv of
                         Some e \<Rightarrow> Inl e
                       | None \<Rightarrow>
                           if \<not> validTagLength (length tag) then Inl InvalidAuthTagLength
                           else (let contentSize = tagPosition - ivLength this
                                 in if contentSize = 0
                                    then Inr (decipher_pipe P this iv tag [])
                                    else Inr (decipher_pipe P this iv tag
                                           (readRange content (ivLength this)
                                              (tagPosition - 1)))))))"


section \<open>Auxiliary definitions\<close>

text \<open>
  The tag that \<open>cipher.getAuthTag()\<close> returns has 16 bytes. The property is a
  hypothesis on the primitives wherever a tag is read back.
\<close>

definition fullTags :: "prims \<Rightarrow> bool" where
  "fullTags P = (\<forall>key iv ct. length (gcmTag P key iv ct) = 16)"

text \<open>
  The invariant of the pipeline as long as no stage has failed, after the bytes \<open>B\<close> of
  the input have been consumed: they have all been hashed and encrypted, the file holds
  the nonce and the ciphertext once there is a ciphertext, and validation has happened
  exactly when four bytes have been seen.
\<close>

definition pipe_inv :: "prims \<Rightarrow> strategy \<Rightarrow> bytes \<Rightarrow> bytes \<Rightarrow> pipe \<Rightarrow> bool" where
  "pipe_inv P this iv B s =
     (hash s = B \<and>
      cipherText s = xorStream P (key this) iv 0 B \<and>
      ivPushed s = (B \<noteq> []) \<and>
      written s = (if B = [] then [] else iv @ xorStream P (key this) iv 0 B) \<and>
      validationError s = None \<and>
      (if isValidated s then 4 \<le> length B \<and> validateBuffer (take 4 B) \<noteq> None
       else magicBuffer s = B \<and> length B < 4))"

text \<open>
  Small instances of the parameters and of the configuration, on which the model is
  evaluated: a key stream and a tag that depend on the first byte of the key, a payload
  that is its own serialisation, a 32-character key, and a source of random bytes.
\<close>

definition toyPrims :: prims where
  "toyPrims =
     \<lparr>keystream = (\<lambda>key iv i. hd key + hd iv),
      gcmTag = (\<lambda>key iv ct. replicate 16 (hd key + of_nat (length ct))),
      sha256 = (\<lambda>b. [of_nat (length b)])\<rparr>"

definition toyJson :: "bytes json" where
  "toyJson = \<lparr>stringify = (\<lambda>p. p), parse = (\<lambda>b. if b = [] then None else Some b)\<rparr>"

definition toyRandom :: "nat \<Rightarrow> bytes" where
  "toyRandom n = replicate n 7"

definition exampleConfig :: security where
  "exampleConfig =
     \<lparr>encryptionKeys = [''0123456789abcdef0123456789abcdef''],
      encryptionIv = ''0123456789abcdef''\<rparr>"

definition rotatedConfig :: security where
  "rotatedConfig =
     \<lparr>encryptionKeys = [''abcdef0123456789abcdef0123456789'', ''0123456789abcdef0123456789abcdef''],
      encryptionIv = ''0123456789abcdef''\<rparr>"

definition exampleStrategy :: strategy where
  "exampleStrategy =
     \<lparr>key = parseKey ''0123456789abcdef0123456789abcdef'', ivLength = 16, tagLength = 16\<rparr>"


section \<open>Lemmas\<close>

subsection \<open>Hex encoding and splitting\<close>

lemma hexVal_hexChars: "n < 16 \<Longrightarrow> hexVal (hexChars ! n) = Some n"
proof -
  assume n: "n < 16"
  have "\<forall>m\<in>set [0..<16]. hexVal (hexChars ! m) = Some m" by code_simp
  with n show ?thesis by simp
qed

lemma hexChars_not_colon: "n < 16 \<Longrightarrow> hexChars ! n \<noteq> CHR '':''"
proof -
  assume n: "n < 16"
  have "\<forall>m\<in>set [0..<16]. hexChars ! m \<noteq> CHR '':''" by code_simp
  with n show ?thesis by simp
qed

lemma unat_byte_div16: "unat (b :: byte) div 16 < 16"
proof -
  have "unat b < 2 ^ LENGTH(8)" by (rule unsigned_less)
  then have "unat b < 256" by simp
  then show ?thesis by simp
qed

lemma fromHex_hexByte: "fromHex (hexByte b @ rest) = b # fromHex rest"
  by (simp add: hexByte_def hexVal_hexChars unat_byte_div16)

lemma fromHex_toHex: "fromHex (toHex bs) = bs"
  by (induction bs) (simp_all add: toHex_def fromHex_hexByte)

lemma colon_notin_hexByte: "CHR '':'' \<notin> set (hexByte b)"
  using hexChars_not_colon [of "unat b div 16"] hexChars_not_colon [of "unat b mod 16"]
  by (auto simp: hexByte_def unat_byte_div16)

lemma colon_notin_toHex: "CHR '':'' \<notin> set (toHex bs)"
  by (induction bs) (simp_all add: toHex_def colon_notin_hexByte)

lemma length_toHex: "length (toHex bs) = 2 * length bs"
  by (induction bs) (simp_all add: toHex_def hexByte_def)

lemma split_on_no_sep: "d \<notin> set s \<Longrightarrow> split_on d s = [s]"
  by (induction s) auto

lemma split_on_append: "d \<notin> set a \<Longrightarrow> split_on d (a @ d # rest) = a # split_on d rest"
  by (induction a) auto

subsection \<open>The stream cipher\<close>

lemma length_xorStream: "length (xorStream P kb iv off bs) = length bs"
  by (induction bs arbitrary: off) auto

lemma xorStream_append:
  "xorStream P kb iv off (a @ b) = xorStream P kb iv off a @ xorStream P kb iv (off + length a) b"
  by (induction a arbitrary: off) auto

lemma xorStream_involution: "xorStream P kb iv off (xorStream P kb iv off bs) = bs"
  by (induction bs arbitrary: off) (auto simp: xor.assoc)

subsection \<open>Token codec\<close>

lemma utf8_ne: "s \<noteq> [] \<Longrightarrow> utf8 s \<noteq> []"
  by (cases s) (auto simp: utf8_def utf8_char_def Let_def)

lemma validTagLength_16: "validTagLength 16"
  by (simp add: validTagLength_def)

lemma split_token:
  "split_on (CHR '':'') (toHex a @ CHR '':'' # toHex b @ CHR '':'' # toHex c) = [toHex a, toHex b, toHex c]"
  by (simp add: split_on_append split_on_no_sep colon_notin_toHex)

lemma encrypt_ok:
  assumes "encryptionKeys cfg = k # ks"
      and "length (keyBytes (parseTokenKey k)) = 32"
      and "encryptionIv cfg \<noteq> []"
  shows "encrypt P J cfg payload =
           Inr (toHex (utf8 (encryptionIv cfg)) @ '':''
                @ toHex (gcmTag P (keyBytes (parseTokenKey k)) (utf8 (encryptionIv cfg))
                     (xorStream P (keyBytes (parseTokenKey k)) (utf8 (encryptionIv cfg)) 0
                        (stringify J payload))) @ '':''
                @ toHex (xorStream P (keyBytes (parseTokenKey k)) (utf8 (encryptionIv cfg)) 0
                        (stringify J payload)))"
  using assms
  by (simp add: encrypt_def PARSED_KEYS_def PARSED_IV_def createCipheriv_def utf8_ne Let_def)

lemma decrypt_token:
  "decrypt P J cfg (toHex iv @ CHR '':'' # toHex tag @ CHR '':'' # toHex ct) =
     tryKeys P J iv tag (toHex ct) (PARSED_KEYS cfg)"
  unfolding decrypt_def Let_def split_token
  by (simp add: fromHex_toHex)

lemma tryKey_own:
  assumes "length kb = 32" and "iv \<noteq> []"
      and "length (gcmTag P kb iv (xorStream P kb iv 0 text)) = 16"
      and "parse J text = Some payload"
      and "keyBytes km = kb"
  shows "tryKey P J iv (gcmTag P kb iv (xorStream P kb iv 0 text))
           (toHex (xorStream P kb iv 0 text)) km = Inr payload"
  using assms
  by (simp add: tryKey_def createCipheriv_def validTagLength_16 length_toHex fromHex_toHex
        xorStream_involution tagVerifies_def Let_def)

lemma length_utf8_ascii: "isAscii s \<Longrightarrow> length (utf8 s) = length s"
  by (induction s) (simp_all add: isAscii_def utf8_def utf8_char_def)

lemma fullTags_toy: "fullTags toyPrims"
  by (simp add: fullTags_def toyPrims_def)

lemma example_key_length:
  "length (keyBytes (parseTokenKey ''0123456789abcdef0123456789abcdef'')) = 32"
  by (simp add: parseTokenKey_def length_utf8_ascii isAscii_def)



lemma tryKey_unauthenticated:
  "\<not> tagVerifies P (keyBytes km) iv tag (fromHex hex) \<Longrightarrow> isl (tryKey P J iv tag hex km)"
  by (auto simp: tryKey_def createCipheriv_def Let_def split: option.splits if_splits)



subsection \<open>Signature validation and the write pipeline\<close>


lemma matches_take4:
  "length numbers \<le> 4 \<Longrightarrow> 4 \<le> length b \<Longrightarrow> matches (take 4 b) numbers = matches b numbers"
  by (auto simp: matches_def list_all_iff)

lemma validateBuffer_take4:
  "4 \<le> length b \<Longrightarrow> validateBuffer (take 4 b) = validateBuffer b"
  by (simp add: validateBuffer_def MAGIC_NUMBERS_def matches_take4)

lemma validateBuffer_short: "length b < 4 \<Longrightarrow> validateBuffer b = None"
  by (simp add: validateBuffer_def)

lemma pipe_inv_initial: "pipe_inv P this iv [] initialPipe"
  by (simp add: pipe_inv_def initialPipe_def)

lemma step_ok:
  assumes "pipe_inv P this iv B s"
      and "length (B @ c) < 4 \<or> validateBuffer (take 4 (B @ c)) \<noteq> None"
  shows "\<exists>s'. pipeline_step P this iv s c = (None, s') \<and> pipe_inv P this iv (B @ c) s'"
proof (cases "isValidated s")
  case True
  with assms(1) have B: "4 \<le> length B" "validateBuffer (take 4 B) \<noteq> None"
    by (simp_all add: pipe_inv_def)
  then have "take 4 (B @ c) = take 4 B" by simp
  with assms(1) True B show ?thesis
    by (auto simp: pipe_inv_def pipeline_step_def validator_transform_def cipher_transform_def
          containerizer_transform_def Let_def xorStream_append length_xorStream)
next
  case False
  with assms(1) have B: "magicBuffer s = B" "length B < 4"
    by (simp_all add: pipe_inv_def)
  show ?thesis
  proof (cases "4 \<le> length (B @ c)")
    case True
    with assms(2) have "validateBuffer (take 4 (B @ c)) \<noteq> None" by auto
    with validateBuffer_take4 [OF True] have "validateBuffer (B @ c) \<noteq> None"
      by (simp del: take_append)
    then obtain ext where ext: "validateBuffer (B @ c) = Some ext" by auto
    from True B have "c \<noteq> []" by auto
    with assms(1) False B True ext assms(2) show ?thesis
      by (auto simp: pipe_inv_def pipeline_step_def validator_transform_def cipher_transform_def
            containerizer_transform_def Let_def xorStream_append length_xorStream)
  next
    case short: False
    with assms(1) False B show ?thesis
      by (auto simp: pipe_inv_def pipeline_step_def validator_transform_def cipher_transform_def
            containerizer_transform_def Let_def xorStream_append length_xorStream)
  qed
qed


lemma run_ok:
  assumes "pipe_inv P this iv B s"
      and "length (B @ concat cs) < 4 \<or> validateBuffer (take 4 (B @ concat cs)) \<noteq> None"
  shows "\<exists>s'. pipeline_run P this iv s cs = (None, s')
           \<and> hash s' = B @ concat cs
           \<and> written s' = iv @ xorStream P (key this) iv 0 (B @ concat cs)
                  @ gcmTag P (key this) iv (xorStream P (key this) iv 0 (B @ concat cs))
           \<and> isValidated s' = (4 \<le> length (B @ concat cs))"
  using assms
proof (induction cs arbitrary: B s)
  case Nil
  then show ?case
    by (auto simp: pipe_inv_def containerizer_flush_def Let_def split: if_splits)
next
  case (Cons c cs)
  have "length (B @ c) < 4 \<or> validateBuffer (take 4 (B @ c)) \<noteq> None"
  proof (cases "4 \<le> length (B @ c)")
    case True
    then have "take 4 (B @ concat (c # cs)) = take 4 (B @ c)" by simp
    moreover from True have "\<not> length (B @ concat (c # cs)) < 4" by simp
    ultimately show ?thesis using Cons.prems(2) by auto
  next
    case False
    then show ?thesis by simp
  qed
  with Cons.prems(1) obtain s1 where s1: "pipeline_step P this iv s c = (None, s1)"
    "pipe_inv P this iv (B @ c) s1"
    using step_ok by blast
  from Cons.prems(2) have "length ((B @ c) @ concat cs) < 4
      \<or> validateBuffer (take 4 ((B @ c) @ concat cs)) \<noteq> None" by simp
  from Cons.IH [OF s1(2) this] s1(1) show ?case by simp
qed


subsection \<open>Reading back\<close>

lemma strategy_fields:
  "LocalStorageStrategy cfg = Inr this \<Longrightarrow> ivLength this = 16 \<and> tagLength this = 16"
  by (auto simp: LocalStorageStrategy_def split: list.splits)

lemma getStream_container:
  assumes "ivLength this = 16" and "tagLength this = 16"
      and "files filename = Some (iv @ ct @ tag)"
      and "length iv = 16" and "length tag = 16"
  shows "getStream P this files filename =
           (case createCipheriv (key this) iv of
              Some e \<Rightarrow> Inl e
            | None \<Rightarrow> Inr (decipher_pipe P this iv tag ct))"
  using assms
  by (cases "ct = []")
     (auto simp: getStream_def pread_def readRange_def validTagLength_def Let_def
        split: option.splits)

lemma createCipheriv_ok: "length kb = 32 \<Longrightarrow> length iv = 16 \<Longrightarrow> createCipheriv kb iv = None"
  by (auto simp: createCipheriv_def)

lemma save_ok:
  assumes "ivLength this = 16" and "length (key this) = 32" and "length (randomBytes 16) = 16"
      and "length (concat inputStream) < 4 \<or> validateBuffer (take 4 (concat inputStream)) \<noteq> None"
  shows "\<exists>s. pipeline_run P this (randomBytes 16) initialPipe inputStream = (None, s)
           \<and> isValidated s = (4 \<le> length (concat inputStream))
           \<and> saveLocalStream P this randomBytes files inputStream filename mimeType =
               (Inr \<lparr>checksum = toHex (sha256 P (concat inputStream)), isEncrypted = True\<rparr>,
                files(filename \<mapsto> randomBytes 16
                   @ xorStream P (key this) (randomBytes 16) 0 (concat inputStream)
                   @ gcmTag P (key this) (randomBytes 16)
                       (xorStream P (key this) (randomBytes 16) 0 (concat inputStream))))"
proof -
  from assms(4) have "length ([] @ concat inputStream) < 4
      \<or> validateBuffer (take 4 ([] @ concat inputStream)) \<noteq> None" by simp
  from run_ok [OF pipe_inv_initial this, of P "this" "randomBytes 16"]
  obtain s where s: "pipeline_run P this (randomBytes 16) initialPipe inputStream = (None, s)"
    "hash s = concat inputStream"
    "written s = randomBytes 16 @ xorStream P (key this) (randomBytes 16) 0 (concat inputStream)
        @ gcmTag P (key this) (randomBytes 16)
            (xorStream P (key this) (randomBytes 16) 0 (concat inputStream))"
    "isValidated s = (4 \<le> length (concat inputStream))"
    by auto
  have "createCipheriv (key this) (randomBytes 16) = None"
    using assms(2,3) by (rule createCipheriv_ok)
  with s assms(1) show ?thesis
    by (simp add: saveLocalStream_def Let_def)
qed

lemma read_back:
  assumes "ivLength this = 16" and "tagLength this = 16" and "length (key this) = 32"
      and "length iv = 16" and "length (gcmTag P (key this) iv (xorStream P (key this) iv 0 B)) = 16"
      and "files filename = Some (iv @ xorStream P (key this) iv 0 B
             @ gcmTag P (key this) iv (xorStream P (key this) iv 0 B))"
  shows "getStream P this files filename = Inr \<lparr>data = B, streamError = None\<rparr>"
  using getStream_container [where this = "this" and files = files and filename = filename
      and iv = iv and ct = "xorStream P (key this) iv 0 B"
      and tag = "gcmTag P (key this) iv (xorStream P (key this) iv 0 B)" and P = P]
    createCipheriv_ok [OF assms(3,4)] assms
  by (simp add: decipher_pipe_def xorStream_involution tagVerifies_def)

lemma example_strategy: "LocalStorageStrategy exampleConfig = Inr exampleStrategy"
  by (simp add: LocalStorageStrategy_def exampleConfig_def exampleStrategy_def)

lemma example_strategy_key: "length (key exampleStrategy) = 32"
  by code_simp

lemma toyRandom_16: "length (toyRandom 16) = 16"
  by (simp add: toyRandom_def)






section \<open>The claims\<close>

text \<open>
  \<^bold>\<open>C1\<close> (round trip of an object). For every input whose first four bytes match an
  accepted signature, in whatever chunks it arrives, \<open>saveLocalStream\<close> succeeds, the
  checksum it returns is the hex SHA-256 digest of the input, and \<open>getStream\<close> on the
  same file name then yields exactly the input, without error. The key of the strategy
  has 32 bytes, \<open>crypto.randomBytes(16)\<close> returns 16 bytes and tags have 16 bytes.
\<close>

theorem object_roundtrip:
  assumes "LocalStorageStrategy cfg = Inr this"
      and "length (key this) = 32"
      and "length (randomBytes 16) = 16"
      and "fullTags P"
      and "validateBuffer (take 4 (concat inputStream)) \<noteq> None"
  shows "\<exists>files'. saveLocalStream P this randomBytes files inputStream filename mimeType =
             (Inr \<lparr>checksum = toHex (sha256 P (concat inputStream)), isEncrypted = True\<rparr>, files')
           \<and> getStream P this files' filename =
               Inr \<lparr>data = concat inputStream, streamError = None\<rparr>"
proof -
  note f = strategy_fields [OF assms(1)]
  let ?iv = "randomBytes 16"
  let ?ct = "xorStream P (key this) ?iv 0 (concat inputStream)"
  let ?files = "files(filename \<mapsto> ?iv @ ?ct @ gcmTag P (key this) ?iv ?ct)"
  from save_ok [of "this" randomBytes inputStream P files filename mimeType] f assms(2,3,5)
  have sv: "saveLocalStream P this randomBytes files inputStream filename mimeType =
      (Inr \<lparr>checksum = toHex (sha256 P (concat inputStream)), isEncrypted = True\<rparr>, ?files)"
    by auto
  have "length (gcmTag P (key this) ?iv ?ct) = 16"
    using assms(4) by (simp add: fullTags_def)
  then have "getStream P this ?files filename = Inr \<lparr>data = concat inputStream, streamError = None\<rparr>"
    using f assms(2,3) by (intro read_back) simp_all
  with sv show ?thesis by blast
qed

theorem object_roundtrip_witness:
  "\<exists>files'. saveLocalStream toyPrims exampleStrategy toyRandom Map.empty
               [[0x50, 0x4B], [0x03, 0x04, 1, 2, 3, 4, 5, 6]] ''upload'' ''application/zip'' =
             (Inr \<lparr>checksum = toHex (sha256 toyPrims
                      (concat [[0x50, 0x4B], [0x03, 0x04, 1, 2, 3, 4, 5, 6]])),
                   isEncrypted = True\<rparr>, files')
           \<and> getStream toyPrims exampleStrategy files' ''upload'' =
               Inr \<lparr>data = concat [[0x50, 0x4B], [0x03, 0x04, 1, 2, 3, 4, 5, 6]],
                    streamError = None\<rparr>"
proof (rule object_roundtrip [where cfg = exampleConfig])
  show "validateBuffer (take 4 (concat [[0x50, 0x4B], [0x03, 0x04, 1, 2, 3, 4, 5, 6]])) \<noteq> None"
    by code_simp
qed (rule example_strategy example_strategy_key toyRandom_16 fullTags_toy)+

text \<open>
  \<^bold>\<open>C2\<close> (round trip of a token). For every payload that \<open>JSON.parse\<close> maps back
  from its serialisation, \<open>encrypt\<close> returns a token and \<open>decrypt\<close> of that token
  returns the payload. The first configured key is one the cipher accepts (32 bytes), the
  configured IV is not empty and tags have 16 bytes.
\<close>

theorem decrypt_encrypt_roundtrip:
  assumes "encryptionKeys cfg = k # ks"
      and "length (keyBytes (parseTokenKey k)) = 32"
      and "encryptionIv cfg \<noteq> []"
      and "fullTags P"
      and "parse J (stringify J payload) = Some payload"
  shows "\<exists>token. encrypt P J cfg payload = Inr token \<and> decrypt P J cfg token = Some payload"
proof -
  let ?kb = "keyBytes (parseTokenKey k)"
  let ?iv = "utf8 (encryptionIv cfg)"
  let ?ct = "xorStream P ?kb ?iv 0 (stringify J payload)"
  let ?tag = "gcmTag P ?kb ?iv ?ct"
  let ?token = "toHex ?iv @ '':'' @ toHex ?tag @ '':'' @ toHex ?ct"
  have enc: "encrypt P J cfg payload = Inr ?token"
    using assms(1-3) by (rule encrypt_ok)
  have len: "length ?tag = 16"
    using assms(4) by (simp add: fullTags_def)
  have "tryKey P J ?iv ?tag (toHex ?ct) (parseTokenKey k) = Inr payload"
    using assms(2) utf8_ne [OF assms(3)] len assms(5) by (rule tryKey_own) simp
  then have "decrypt P J cfg ?token = Some payload"
    by (simp add: decrypt_token PARSED_KEYS_def assms(1))
  with enc show ?thesis by blast
qed

theorem decrypt_encrypt_roundtrip_witness:
  "\<exists>token. encrypt toyPrims toyJson exampleConfig [123, 125] = Inr token
      \<and> decrypt toyPrims toyJson exampleConfig token = Some [123, 125]"
  by (rule decrypt_encrypt_roundtrip [where k = "''0123456789abcdef0123456789abcdef''" and ks = "[]"])
     (simp_all add: exampleConfig_def example_key_length fullTags_toy toyJson_def)

text \<open>
  \<^bold>\<open>C3\<close> (nonce of a token). The claim that every call of \<open>encrypt\<close> draws a fresh
  random nonce does not hold: \<open>encrypt\<close> draws no randomness, and the nonce field of
  every token it returns is the hex encoding of the configured \<open>ENCRYPTION_IV\<close>, the
  same for all tokens. The theorem states what the code does; the closed statement after
  it shows two tokens for different payloads with the same nonce field.
\<close>

theorem nonce_is_configured_iv:
  "encrypt P J cfg payload = Inr token \<Longrightarrow>
     hd (split_on (CHR '':'') token) = toHex (utf8 (encryptionIv cfg))"
  by (auto simp: encrypt_def PARSED_IV_def Let_def split_on_append colon_notin_toHex
        split: list.splits option.splits)

theorem nonce_reuse_counterexample:
  "encrypt toyPrims toyJson exampleConfig [1] =
     Inr ''30313233343536373839616263646566:31313131313131313131313131313131:61''
   \<and> encrypt toyPrims toyJson exampleConfig [2] =
     Inr ''30313233343536373839616263646566:31313131313131313131313131313131:62''
   \<and> toHex (utf8 (encryptionIv exampleConfig)) = ''30313233343536373839616263646566''"
  by code_simp

theorem nonce_is_configured_iv_witness:
  "hd (split_on (CHR '':'')
        ''30313233343536373839616263646566:31313131313131313131313131313131:61'')
   = toHex (utf8 (encryptionIv exampleConfig))"
proof -
  have e: "encrypt toyPrims toyJson exampleConfig [1] =
      Inr ''30313233343536373839616263646566:31313131313131313131313131313131:61''"
    by code_simp
  from nonce_is_configured_iv [OF e] show ?thesis .
qed



text \<open>
  \<^bold>\<open>C5\<close> (key rotation). A token that \<open>encrypt\<close> produced while \<open>k\<close> was the
  first configured key is decrypted to the same payload under a keyring in which a new
  key \<open>k'\<close> is first and \<open>k\<close> second. The hypothesis on \<open>k'\<close> is that the tag of
  the token does not verify under it, which is what the authenticated cipher provides for
  an unrelated key; a key \<open>k'\<close> that the cipher refuses satisfies it as well.
\<close>

theorem key_rotation:
  assumes "encryptionKeys cfg = k # ks"
      and "encryptionKeys cfg' = k' # k # ks'"
      and "length (keyBytes (parseTokenKey k)) = 32"
      and "encryptionIv cfg \<noteq> []"
      and "fullTags P"
      and "parse J (stringify J payload) = Some payload"
      and "\<not> tagVerifies P (keyBytes (parseTokenKey k')) (utf8 (encryptionIv cfg))
              (gcmTag P (keyBytes (parseTokenKey k)) (utf8 (encryptionIv cfg))
                 (xorStream P (keyBytes (parseTokenKey k)) (utf8 (encryptionIv cfg)) 0
                    (stringify J payload)))
              (xorStream P (keyBytes (parseTokenKey k)) (utf8 (encryptionIv cfg)) 0
                 (stringify J payload))"
  shows "\<exists>token. encrypt P J cfg payload = Inr token \<and> decrypt P J cfg' token = Some payload"
proof -
  let ?kb = "keyBytes (parseTokenKey k)"
  let ?iv = "utf8 (encryptionIv cfg)"
  let ?ct = "xorStream P ?kb ?iv 0 (stringify J payload)"
  let ?tag = "gcmTag P ?kb ?iv ?ct"
  let ?token = "toHex ?iv @ '':'' @ toHex ?tag @ '':'' @ toHex ?ct"
  have enc: "encrypt P J cfg payload = Inr ?token"
    using assms(1,3,4) by (rule encrypt_ok)
  have len: "length ?tag = 16"
    using assms(5) by (simp add: fullTags_def)
  have own: "tryKey P J ?iv ?tag (toHex ?ct) (parseTokenKey k) = Inr payload"
    using assms(3) utf8_ne [OF assms(4)] len assms(6) by (rule tryKey_own) simp
  have "\<not> tagVerifies P (keyBytes (parseTokenKey k')) ?iv ?tag (fromHex (toHex ?ct))"
    using assms(7) by (simp add: fromHex_toHex)
  then have "isl (tryKey P J ?iv ?tag (toHex ?ct) (parseTokenKey k'))"
    by (rule tryKey_unauthenticated)
  then obtain e where new: "tryKey P J ?iv ?tag (toHex ?ct) (parseTokenKey k') = Inl e"
    by (cases "tryKey P J ?iv ?tag (toHex ?ct) (parseTokenKey k')") auto
  have "decrypt P J cfg' ?token = Some payload"
    by (simp add: decrypt_token PARSED_KEYS_def assms(2) new own)
  with enc show ?thesis by blast
qed

theorem key_rotation_witness:
  "\<exists>token. encrypt toyPrims toyJson exampleConfig [123, 125] = Inr token
      \<and> decrypt toyPrims toyJson rotatedConfig token = Some [123, 125]"
proof (rule key_rotation [where k = "''0123456789abcdef0123456789abcdef''" and ks = "[]"
        and k' = "''abcdef0123456789abcdef0123456789''" and ks' = "[]"])
  show "\<not> tagVerifies toyPrims (keyBytes (parseTokenKey ''abcdef0123456789abcdef0123456789''))
          (utf8 (encryptionIv exampleConfig))
          (gcmTag toyPrims (keyBytes (parseTokenKey ''0123456789abcdef0123456789abcdef''))
             (utf8 (encryptionIv exampleConfig))
             (xorStream toyPrims (keyBytes (parseTokenKey ''0123456789abcdef0123456789abcdef''))
                (utf8 (encryptionIv exampleConfig)) 0 (stringify toyJson [123, 125])))
          (xorStream toyPrims (keyBytes (parseTokenKey ''0123456789abcdef0123456789abcdef''))
             (utf8 (encryptionIv exampleConfig)) 0 (stringify toyJson [123, 125]))"
    by (simp add: tagVerifies_def toyPrims_def parseTokenKey_def utf8_def utf8_char_def)
qed (simp_all add: exampleConfig_def rotatedConfig_def example_key_length fullTags_toy toyJson_def)




text \<open>
  \<^bold>\<open>C7\<close> (empty object). Writing an input of length zero succeeds; the stored object
  is the 16-byte nonce followed by the 16-byte tag, 32 bytes, and reading it back yields
  an empty plaintext without error.
\<close>

theorem empty_object:
  assumes "LocalStorageStrategy cfg = Inr this"
      and "length (key this) = 32"
      and "length (randomBytes 16) = 16"
      and "fullTags P"
      and "concat inputStream = []"
  shows "\<exists>files' content.
           saveLocalStream P this randomBytes files inputStream filename mimeType =
             (Inr \<lparr>checksum = toHex (sha256 P []), isEncrypted = True\<rparr>, files')
           \<and> files' filename = Some content
           \<and> content = randomBytes 16 @ gcmTag P (key this) (randomBytes 16) []
           \<and> length content = 32
           \<and> getStream P this files' filename = Inr \<lparr>data = [], streamError = None\<rparr>"
proof -
  note f = strategy_fields [OF assms(1)]
  let ?iv = "randomBytes 16"
  let ?content = "?iv @ gcmTag P (key this) ?iv []"
  let ?files = "files(filename \<mapsto> ?content)"
  from save_ok [of "this" randomBytes inputStream P files filename mimeType] f assms(2,3,5)
  have sv: "saveLocalStream P this randomBytes files inputStream filename mimeType =
      (Inr \<lparr>checksum = toHex (sha256 P []), isEncrypted = True\<rparr>, ?files)"
    by auto
  have tl: "length (gcmTag P (key this) ?iv []) = 16"
    using assms(4) by (simp add: fullTags_def)
  have "getStream P this ?files filename = Inr \<lparr>data = [], streamError = None\<rparr>"
    using f assms(2,3) tl by (intro read_back) simp_all
  moreover have "length ?content = 32" using assms(3) tl by simp
  ultimately show ?thesis using sv by auto
qed

theorem empty_object_witness:
  "\<exists>files' content.
     saveLocalStream toyPrims exampleStrategy toyRandom Map.empty [] ''upload'' ''text/plain'' =
       (Inr \<lparr>checksum = toHex (sha256 toyPrims []), isEncrypted = True\<rparr>, files')
     \<and> files' ''upload'' = Some content
     \<and> content = toyRandom 16 @ gcmTag toyPrims (key exampleStrategy) (toyRandom 16) []
     \<and> length content = 32
     \<and> getStream toyPrims exampleStrategy files' ''upload'' = Inr \<lparr>data = [], streamError = None\<rparr>"
proof (rule empty_object [where cfg = exampleConfig])
  show "concat ([] :: bytes list) = []" by simp
qed (rule example_strategy example_strategy_key toyRandom_16 fullTags_toy)+






text \<open>
  \<^bold>\<open>C10\<close> (inputs of one to three bytes). For every input of total length 1 to 3
  the pipeline ends without error and with \<open>isValidated\<close> still false: the branch that
  calls \<open>validateBuffer\<close> either fails or sets the flag, so it was never entered. The
  stored object has 32 bytes more than the input, although \<open>validateBuffer\<close> accepts no
  buffer that short.
\<close>

theorem short_input_unvalidated:
  assumes "LocalStorageStrategy cfg = Inr this"
      and "length (key this) = 32"
      and "length (randomBytes 16) = 16"
      and "fullTags P"
      and "1 \<le> length (concat inputStream)"
      and "length (concat inputStream) \<le> 3"
  shows "\<exists>s files' content.
           pipeline_run P this (randomBytes 16) initialPipe inputStream = (None, s)
           \<and> \<not> isValidated s
           \<and> validateBuffer (concat inputStream) = None
           \<and> saveLocalStream P this randomBytes files inputStream filename mimeType =
               (Inr \<lparr>checksum = toHex (sha256 P (concat inputStream)), isEncrypted = True\<rparr>, files')
           \<and> files' filename = Some content
           \<and> length content = 32 + length (concat inputStream)"
proof -
  note f = strategy_fields [OF assms(1)]
  let ?iv = "randomBytes 16"
  let ?ct = "xorStream P (key this) ?iv 0 (concat inputStream)"
  let ?content = "?iv @ ?ct @ gcmTag P (key this) ?iv ?ct"
  let ?files = "files(filename \<mapsto> ?content)"
  from assms(6) have short: "length (concat inputStream) < 4" by simp
  from save_ok [of "this" randomBytes inputStream P files filename mimeType] f assms(2,3) short
  obtain s where s: "pipeline_run P this ?iv initialPipe inputStream = (None, s)"
    "\<not> isValidated s"
    "saveLocalStream P this randomBytes files inputStream filename mimeType =
      (Inr \<lparr>checksum = toHex (sha256 P (concat inputStream)), isEncrypted = True\<rparr>, ?files)"
    by auto
  have "length (gcmTag P (key this) ?iv ?ct) = 16"
    using assms(4) by (simp add: fullTags_def)
  then have "length ?content = 32 + length (concat inputStream)"
    using assms(3) by (simp add: length_xorStream)
  moreover have "validateBuffer (concat inputStream) = None"
    using short by (rule validateBuffer_short)
  ultimately show ?thesis using s by auto
qed

theorem short_input_unvalidated_witness:
  "\<exists>s files' content.
     pipeline_run toyPrims exampleStrategy (toyRandom 16) initialPipe [[1], [2, 3]] = (None, s)
     \<and> \<not> isValidated s
     \<and> validateBuffer (concat [[1], [2, 3]]) = None
     \<and> saveLocalStream toyPrims exampleStrategy toyRandom Map.empty [[1], [2, 3]] ''upload''
           ''text/plain'' =
         (Inr \<lparr>checksum = toHex (sha256 toyPrims (concat [[1], [2, 3]])), isEncrypted = True\<rparr>,
          files')
     \<and> files' ''upload'' = Some content
     \<and> length content = 32 + length (concat [[1 :: byte], [2, 3]])"
proof (rule short_input_unvalidated [where cfg = exampleConfig])
  show "1 \<le> length (concat [[1 :: byte], [2, 3]])" by simp
  show "length (concat [[1 :: byte], [2, 3]]) \<le> 3" by simp
qed (rule example_strategy example_strategy_key toyRandom_16 fullTags_toy)+

end
